theory Spec2Isabelle
  imports Main
begin

section \<open>Strings\<close>

text \<open>
  A JavaScript string is modelled as the list of its Unicode code points. The slug
  utility's only regular expression with a character class beyond the Basic Multilingual
  Plane carries the \<open>u\<close> flag and so works on code points; the other expressions only
  mention characters of the Basic Multilingual Plane.
\<close>

type_synonym ustring = "nat list"

definition ascii :: "string \<Rightarrow> ustring" where
  "ascii s = map of_char s"

definition hyphen :: nat where
  "hyphen = 45"

definition is_hyphen :: "nat \<Rightarrow> bool" where
  "is_hyphen c \<longleftrightarrow> c = hyphen"

text \<open>
  The characters matched by \<open>\s\<close> and removed by \<open>String.prototype.trim\<close>
  (ECMAScript WhiteSpace and LineTerminator): TAB, LF, VT, FF, CR, SPACE, U+00A0, U+1680,
  U+2000..U+200A, U+2028, U+2029, U+202F, U+205F, U+3000, U+FEFF.
\<close>

definition is_space :: "nat \<Rightarrow> bool" where
  "is_space c \<longleftrightarrow>
     c = 9 \<or> c = 10 \<or> c = 11 \<or> c = 12 \<or> c = 13 \<or> c = 32 \<or> c = 160 \<or> c = 5760 \<or>
     (8192 \<le> c \<and> c \<le> 8202) \<or> c = 8232 \<or> c = 8233 \<or> c = 8239 \<or> c = 8287 \<or>
     c = 12288 \<or> c = 65279"

text \<open>\<open>s.trim()\<close>\<close>

definition trim :: "ustring \<Rightarrow> ustring" where
  "trim s = rev (dropWhile is_space (rev (dropWhile is_space s)))"

text \<open>
  \<open>s.replace(/[C]+/g, rep)\<close> for a character class \<open>C\<close>: the scan goes left to right;
  at a character of the class the greedy \<open>+\<close> consumes the whole run, which is replaced
  by \<open>rep\<close>, and the scan resumes behind the run.
\<close>

function replace_runs :: "(nat \<Rightarrow> bool) \<Rightarrow> ustring \<Rightarrow> ustring \<Rightarrow> ustring" where
  "replace_runs P rep [] = []"
| "replace_runs P rep (c # cs) =
     (if P c then rep @ replace_runs P rep (dropWhile P cs)
      else c # replace_runs P rep cs)"
  by pat_completeness auto
termination
  by (relation "measure (\<lambda>(P, rep, s). length s)")
     (auto simp: length_dropWhile_le less_Suc_eq_le)

text \<open>\<open>s.replace(/[C]/g, rep)\<close>: every single character of the class is replaced.\<close>

definition replace_each :: "(nat \<Rightarrow> bool) \<Rightarrow> ustring \<Rightarrow> ustring \<Rightarrow> ustring" where
  "replace_each P rep s = concat (map (\<lambda>c. if P c then rep else [c]) s)"

text \<open>
  \<open>s.replace(/^-+|-+$/g, '')\<close>. The first alternative matches only at index 0 and takes
  the leading run of hyphens. The second alternative matches at an index exactly when the
  run of hyphens that starts there reaches the end of the string; the scan tries each
  index in turn.
\<close>

fun strip_tail :: "ustring \<Rightarrow> ustring" where
  "strip_tail [] = []"
| "strip_tail (c # cs) =
     (if is_hyphen c \<and> list_all is_hyphen cs then [] else c # strip_tail cs)"

definition strip_edges :: "ustring \<Rightarrow> ustring" where
  "strip_edges s =
     (case s of
        [] \<Rightarrow> []
      | c # cs \<Rightarrow> if is_hyphen c then strip_tail (dropWhile is_hyphen cs) else strip_tail s)"

section \<open>The slug utility\<close>

text \<open>
  \<open>String.prototype.normalize('NFKC')\<close>, the Unicode property classes \<open>\p{L}\<close> and
  \<open>\p{N}\<close> and \<open>String.prototype.toLowerCase\<close> belong to the JavaScript runtime, not
  to the repository: they are parameters of the embedding.
\<close>

record unicode =
  nfkc :: "ustring \<Rightarrow> ustring"
  is_letter :: "nat \<Rightarrow> bool"
  is_number :: "nat \<Rightarrow> bool"
  lower :: "ustring \<Rightarrow> ustring"

text \<open>The class \<open>[\p{L}\p{N}\-_.~]\<close>; underscore 95, period 46, tilde 126.\<close>

definition keep_char :: "unicode \<Rightarrow> nat \<Rightarrow> bool" where
  "keep_char U c \<longleftrightarrow> is_letter U c \<or> is_number U c \<or> c = hyphen \<or> c = 95 \<or> c = 46 \<or> c = 126"

text \<open>
  \<open>isEmptyOrHyphens(s: string | undefined | null)\<close>; \<open>None\<close> stands for \<open>undefined\<close>
  and \<open>null\<close>.
\<close>

definition isEmptyOrHyphens :: "ustring option \<Rightarrow> bool" where
  "isEmptyOrHyphens s =
     (case s of
        None \<Rightarrow> True
      | Some t \<Rightarrow> if t = [] then True else trim (replace_each is_hyphen [] t) = [])"

definition unicodeSlug :: "unicode \<Rightarrow> ustring \<Rightarrow> ustring" where
  "unicodeSlug U input =
     (if input = [] then []
      else
        let normalized = trim (nfkc U input);
            s1 = replace_runs is_space [hyphen] normalized;
            s2 = replace_each (\<lambda>c. \<not> keep_char U c) [] s1;
            s3 = strip_edges (replace_runs is_hyphen [hyphen] s2)
        in s3)"

subsection \<open>A fragment of the runtime's Unicode tables\<close>

text \<open>
  For evaluation on concrete strings: the conjoining-jamo composition that NFKC performs
  on Hangul (Unicode Standard, section 3.12), the identity on every other character. It
  agrees with \<open>normalize('NFKC')\<close> on strings of ASCII characters, modern Hangul jamo and
  Hangul syllables. A leading consonant U+1100..U+1112 followed by a vowel
  U+1161..U+1175 composes to the syllable U+AC00 + ((L - U+1100) * 21 + (V - U+1161)) * 28;
  such a syllable followed by a trailing consonant U+11A8..U+11C2 composes further.
\<close>

fun hangul_compose :: "nat \<Rightarrow> ustring \<Rightarrow> ustring" where
  "hangul_compose l [] = [l]"
| "hangul_compose l (c # cs) =
     (if 4352 \<le> l \<and> l < 4371 \<and> 4449 \<le> c \<and> c < 4470
        then hangul_compose (44032 + ((l - 4352) * 21 + (c - 4449)) * 28) cs
      else if 44032 \<le> l \<and> l < 55204 \<and> (l - 44032) mod 28 = 0 \<and> 4519 < c \<and> c < 4547
        then hangul_compose (l + (c - 4519)) cs
      else l # hangul_compose c cs)"

definition nfkc_hangul :: "ustring \<Rightarrow> ustring" where
  "nfkc_hangul s = (case s of [] \<Rightarrow> [] | c # cs \<Rightarrow> hangul_compose c cs)"

text \<open>
  The letters and digits among the characters the examples use: ASCII letters, U+00E9,
  the Hangul Jamo block U+1100..U+11FF and the Hangul syllables U+AC00..U+D7A3 are in
  \<open>\p{L}\<close>; the ASCII digits are in \<open>\p{N}\<close>.
\<close>

definition letter_fragment :: "nat \<Rightarrow> bool" where
  "letter_fragment c \<longleftrightarrow>
     (65 \<le> c \<and> c \<le> 90) \<or> (97 \<le> c \<and> c \<le> 122) \<or> c = 233 \<or>
     (4352 \<le> c \<and> c \<le> 4607) \<or> (44032 \<le> c \<and> c \<le> 55203)"

definition number_fragment :: "nat \<Rightarrow> bool" where
  "number_fragment c \<longleftrightarrow> 48 \<le> c \<and> c \<le> 57"

text \<open>Lower case on the same characters: only the ASCII capitals change.\<close>

definition lower_fragment :: "ustring \<Rightarrow> ustring" where
  "lower_fragment s = map (\<lambda>c. if 65 \<le> c \<and> c \<le> 90 then c + 32 else c) s"

definition unicode_fragment :: unicode where
  "unicode_fragment =
     \<lparr>nfkc = nfkc_hangul, is_letter = letter_fragment, is_number = number_fragment,
      lower = lower_fragment\<rparr>"

subsection \<open>The normalizer as the specification words it\<close>

text \<open>
  "Replace every run by a single hyphen", as one pass that remembers whether the previous
  character belonged to a run: the first character of a run becomes a hyphen, the others
  are dropped.
\<close>

fun squeeze :: "(nat \<Rightarrow> bool) \<Rightarrow> bool \<Rightarrow> ustring \<Rightarrow> ustring" where
  "squeeze P inrun [] = []"
| "squeeze P inrun (c # cs) =
     (if P c then (if inrun then squeeze P True cs else hyphen # squeeze P True cs)
      else c # squeeze P False cs)"

definition strip_hyphens :: "ustring \<Rightarrow> ustring" where
  "strip_hyphens s = rev (dropWhile is_hyphen (rev (dropWhile is_hyphen s)))"

definition slug_steps :: "unicode \<Rightarrow> ustring \<Rightarrow> ustring" where
  "slug_steps U t =
     strip_hyphens
       (squeeze is_hyphen False
         (filter (keep_char U)
           (squeeze is_space False (trim t))))"

definition normalize_spec :: "unicode \<Rightarrow> ustring \<Rightarrow> ustring" where
  "normalize_spec U x = slug_steps U (nfkc U x)"

text \<open>A string of whitespace and hyphens only.\<close>

definition blank :: "ustring \<Rightarrow> bool" where
  "blank s = list_all (\<lambda>c. is_space c \<or> is_hyphen c) s"

text \<open>No two adjacent hyphens.\<close>

fun no_hh :: "ustring \<Rightarrow> bool" where
  "no_hh (a # b # cs) = (\<not> (is_hyphen a \<and> is_hyphen b) \<and> no_hh (b # cs))"
| "no_hh cs = True"

text \<open>The equations that evaluate the slug utility on a concrete string.\<close>

lemmas slug_eval =
  unicodeSlug_def unicode_fragment_def nfkc_hangul_def trim_def is_space_def replace_each_def
  keep_char_def letter_fragment_def number_fragment_def hyphen_def is_hyphen_def
  strip_edges_def ascii_def

section \<open>The entity and the table\<close>

text \<open>
  The exceptions the service lets escape. \<open>NotFoundException\<close> is answered with status
  404 and \<open>BadRequestException\<close> with status 400, the specification's conflict error; a
  \<open>QueryFailedError\<close> carries the code of the database driver's error and is an internal
  failure.
\<close>

datatype error =
    NotFoundException string
  | BadRequestException string
  | QueryFailedError string

text \<open>
  A row of the table \<open>menus\<close>: the columns of the entity \<open>Menu\<close> the service reads and
  writes. The columns \<open>uid\<close>, \<open>depth\<close>, \<open>createdAt\<close> and \<open>updatedAt\<close>, which the
  database fills in, and the materialized path are left out.
\<close>

record row =
  row_id :: int
  row_name :: ustring
  row_slug :: ustring
  row_order :: int
  row_isActive :: bool
  row_parentId :: "int option"

type_synonym table = "row list"

text \<open>
  A \<open>Menu\<close> object in memory. A new object has no id. A relation that a query did not
  load is \<open>undefined\<close>, here \<open>None\<close>: \<open>menu_parent\<close> is \<open>None\<close> when not loaded,
  \<open>Some None\<close> for \<open>null\<close> and \<open>Some (Some p)\<close> for the menu with id \<open>p\<close>;
  \<open>menu_children\<close> is \<open>None\<close> when not loaded.
\<close>

record menu =
  menu_id :: "int option"
  menu_name :: ustring
  menu_slug :: ustring
  menu_order :: int
  menu_isActive :: bool
  menu_parent :: "int option option"
  menu_children :: "row list option"

text \<open>A menu with its \<open>children\<close> loaded all the way down, as \<open>findTrees\<close> returns it.\<close>

datatype menu_tree = MenuTree (tree_root: row) (tree_children: "menu_tree list")

section \<open>The repository\<close>

text \<open>
  The operations of TypeORM's \<open>TreeRepository\<close> that the service calls, on the table as
  the entity's decorators declare it: unique indexes on \<open>name\<close> and on \<open>slug\<close>, and the
  foreign key of the parent relation with no cascade.
\<close>

text \<open>\<open>findOne({ where: { id } })\<close> names no relations: none is loaded.\<close>

definition load :: "row \<Rightarrow> menu" where
  "load r =
     \<lparr>menu_id = Some (row_id r), menu_name = row_name r, menu_slug = row_slug r,
      menu_order = row_order r, menu_isActive = row_isActive r,
      menu_parent = None, menu_children = None\<rparr>"

definition repo_findOne :: "table \<Rightarrow> int \<Rightarrow> menu option" where
  "repo_findOne tb i = map_option load (find (\<lambda>r. row_id r = i) tb)"

text \<open>\<open>exist({ where: { slug } })\<close>\<close>

definition repo_exist :: "table \<Rightarrow> ustring \<Rightarrow> bool" where
  "repo_exist tb s = list_ex (\<lambda>r. row_slug r = s) tb"

text \<open>SQL's \<open>MAX\<close>: \<open>NULL\<close> over no rows.\<close>

fun sql_max :: "int list \<Rightarrow> int option" where
  "sql_max [] = None"
| "sql_max (x # xs) = (case sql_max xs of None \<Rightarrow> Some x | Some m \<Rightarrow> Some (max x m))"

text \<open>
  \<open>SELECT COALESCE(MAX(menu."order"), 0)\<close> with \<open>WHERE menu."parentId" = :pid\<close> or
  \<open>WHERE menu."parentId" IS NULL\<close>.
\<close>

definition siblings :: "table \<Rightarrow> int option \<Rightarrow> row list" where
  "siblings tb p = filter (\<lambda>r. row_parentId r = p) tb"

definition max_order :: "table \<Rightarrow> int option \<Rightarrow> int" where
  "max_order tb p = (case sql_max (map row_order (siblings tb p)) of None \<Rightarrow> 0 | Some m \<Rightarrow> m)"

text \<open>
  \<open>findDescendants(menu)\<close>: the menu itself and every row below it. The ids on the way
  from a row up to its root are followed for at most as many steps as the table has rows.
\<close>

fun ancestors :: "table \<Rightarrow> nat \<Rightarrow> int option \<Rightarrow> int list" where
  "ancestors tb 0 p = []"
| "ancestors tb (Suc n) None = []"
| "ancestors tb (Suc n) (Some p) =
     p # (case find (\<lambda>r. row_id r = p) tb of
            None \<Rightarrow> []
          | Some r \<Rightarrow> ancestors tb n (row_parentId r))"

definition repo_findDescendants :: "table \<Rightarrow> menu \<Rightarrow> row list" where
  "repo_findDescendants tb m =
     (case menu_id m of
        None \<Rightarrow> []
      | Some i \<Rightarrow>
          filter (\<lambda>r. row_id r = i \<or> i \<in> set (ancestors tb (length tb) (row_parentId r))) tb)"

text \<open>\<open>findTrees({ relations: ['children'] })\<close>: every root with its whole subtree.\<close>

fun subtree :: "table \<Rightarrow> nat \<Rightarrow> row \<Rightarrow> menu_tree" where
  "subtree tb 0 r = MenuTree r []"
| "subtree tb (Suc n) r =
     MenuTree r (map (subtree tb n) (filter (\<lambda>c. row_parentId c = Some (row_id r)) tb))"

definition repo_findTrees :: "table \<Rightarrow> menu_tree list" where
  "repo_findTrees tb = map (subtree tb (length tb)) (filter (\<lambda>r. row_parentId r = None) tb)"

text \<open>
  \<open>save(entity)\<close>: one statement, applied or refused as a whole. PostgreSQL refuses
  it with the code of the first check that fails. The values are checked first: a name
  or slug that holds the character U+0000 (22021), an order outside the 32-bit integers
  of the column \<open>int\<close> (22003), a name of more than 150 or a slug of more than 180
  characters (22001), unless the characters beyond the limit are all spaces, which are cut
  off. The unique indexes are checked last: a second row with the name or the slug of the
  entity (23505). An entity without id is inserted under a fresh id (the sequence of the
  table, here the successor of the largest stored id); otherwise its row is updated, the
  parent only when the relation is set on the object. The object returned is the object
  given.
\<close>

definition in_int4 :: "int \<Rightarrow> bool" where
  "in_int4 n \<longleftrightarrow> - 2147483648 \<le> n \<and> n \<le> 2147483647"

definition has_nul :: "ustring \<Rightarrow> bool" where
  "has_nul s = list_ex (\<lambda>c. c = 0) s"

definition too_long :: "nat \<Rightarrow> ustring \<Rightarrow> bool" where
  "too_long n s = list_ex (\<lambda>c. c \<noteq> 32) (drop n s)"

definition value_error :: "menu \<Rightarrow> string option" where
  "value_error e =
     (if has_nul (menu_name e) \<or> has_nul (menu_slug e) then Some ''22021''
      else if \<not> in_int4 (menu_order e) then Some ''22003''
      else if too_long 150 (menu_name e) \<or> too_long 180 (menu_slug e) then Some ''22001''
      else None)"

text \<open>The object with its strings as the columns \<open>varchar\<close> hold them.\<close>

definition as_stored :: "menu \<Rightarrow> menu" where
  "as_stored e = e\<lparr>menu_name := take 150 (menu_name e), menu_slug := take 180 (menu_slug e)\<rparr>"

definition unique_violation :: "table \<Rightarrow> menu \<Rightarrow> bool" where
  "unique_violation tb e =
     list_ex (\<lambda>r. Some (row_id r) \<noteq> menu_id e \<and>
                  (row_name r = menu_name e \<or> row_slug r = menu_slug e)) tb"

definition next_id :: "table \<Rightarrow> int" where
  "next_id tb = (case sql_max (map row_id tb) of None \<Rightarrow> 1 | Some m \<Rightarrow> m + 1)"

definition insert_row :: "table \<Rightarrow> menu \<Rightarrow> row" where
  "insert_row tb e =
     \<lparr>row_id = next_id tb, row_name = menu_name e, row_slug = menu_slug e,
      row_order = menu_order e, row_isActive = menu_isActive e,
      row_parentId = (case menu_parent e of None \<Rightarrow> None | Some p \<Rightarrow> p)\<rparr>"

definition update_row :: "menu \<Rightarrow> row \<Rightarrow> row" where
  "update_row e r =
     r\<lparr>row_name := menu_name e, row_slug := menu_slug e, row_order := menu_order e,
       row_isActive := menu_isActive e,
       row_parentId := (case menu_parent e of None \<Rightarrow> row_parentId r | Some p \<Rightarrow> p)\<rparr>"

definition save_error :: "table \<Rightarrow> menu \<Rightarrow> string option" where
  "save_error tb e =
     (case value_error e of
        Some code \<Rightarrow> Some code
      | None \<Rightarrow> if unique_violation tb (as_stored e) then Some ''23505'' else None)"

definition repo_save :: "table \<Rightarrow> menu \<Rightarrow> table \<times> (error + menu)" where
  "repo_save tb e =
     (case save_error tb e of
        Some code \<Rightarrow> (tb, Inl (QueryFailedError code))
      | None \<Rightarrow>
          case menu_id e of
            None \<Rightarrow>
              (tb @ [insert_row tb (as_stored e)], Inr (e\<lparr>menu_id := Some (next_id tb)\<rparr>))
          | Some i \<Rightarrow>
              (map (\<lambda>r. if row_id r = i then update_row (as_stored e) r else r) tb, Inr e))"

text \<open>The parent a table stores for a node.\<close>

definition stored_parent :: "table \<Rightarrow> int \<Rightarrow> int option option" where
  "stored_parent tb i = map_option row_parentId (find (\<lambda>r. row_id r = i) tb)"

text \<open>
  \<open>remove(entity)\<close>: the foreign key refuses to delete a row that another row names as
  its parent (PostgreSQL's error 23503).
\<close>

definition repo_remove :: "table \<Rightarrow> menu \<Rightarrow> table \<times> (error + unit)" where
  "repo_remove tb e =
     (case menu_id e of
        None \<Rightarrow> (tb, Inr ())
      | Some i \<Rightarrow>
          if list_ex (\<lambda>r. row_parentId r = Some i) tb
          then (tb, Inl (QueryFailedError ''23503''))
          else (filter (\<lambda>r. row_id r \<noteq> i) tb, Inr ()))"

section \<open>The service\<close>

subsection \<open>ensureUniqueSlug\<close>

text \<open>The decimal digits of a number, as the template literal prints \<open>${i}\<close>.\<close>

function decimal :: "nat \<Rightarrow> ustring" where
  "decimal n = (if n < 10 then [48 + n] else decimal (n div 10) @ [48 + n mod 10])"
  by pat_completeness auto
termination
  by (relation "measure (\<lambda>n. n)") auto

declare decimal.simps [simp del]

text \<open>\<open>`${base}-${i}`\<close>\<close>

definition candidate :: "ustring \<Rightarrow> nat \<Rightarrow> ustring" where
  "candidate base i = base @ hyphen # decimal i"

text \<open>Reading the digits back shows that different numbers give different candidates.\<close>

definition digits_nat :: "ustring \<Rightarrow> nat" where
  "digits_nat s = foldl (\<lambda>a c. 10 * a + (c - 48)) 0 s"

lemma digits_nat_decimal: "digits_nat (decimal n) = n"
proof (induction n rule: decimal.induct)
  case (1 n)
  show ?case
  proof (cases "n < 10")
    case True
    then show ?thesis by (simp add: decimal.simps [of n] digits_nat_def)
  next
    case False
    then have "digits_nat (decimal (n div 10)) = n div 10" using 1 by simp
    then show ?thesis using False
      by (simp add: decimal.simps [of n] digits_nat_def)
  qed
qed

lemma candidate_index: "digits_nat (drop (Suc (length base)) (candidate base i)) = i"
  by (simp add: candidate_def digits_nat_decimal)

lemma finite_taken: "finite {j. repo_exist tb (candidate base j)}"
proof -
  have "{j. repo_exist tb (candidate base j)} \<subseteq>
        (\<lambda>s. digits_nat (drop (Suc (length base)) s)) ` (row_slug ` set tb)"
  proof
    fix j assume "j \<in> {j. repo_exist tb (candidate base j)}"
    then obtain r where "r \<in> set tb" "row_slug r = candidate base j"
      by (auto simp: repo_exist_def list_ex_iff)
    then have "candidate base j \<in> row_slug ` set tb"
      by (metis imageI)
    then have "digits_nat (drop (Suc (length base)) (candidate base j)) \<in>
        (\<lambda>s. digits_nat (drop (Suc (length base)) s)) ` (row_slug ` set tb)"
      by (rule imageI)
    then show "j \<in> (\<lambda>s. digits_nat (drop (Suc (length base)) s)) ` (row_slug ` set tb)"
      by (simp only: candidate_index)
  qed
  then show ?thesis by (rule finite_subset) simp
qed

text \<open>
  The loop \<open>while (await this.repo.exist({ where: { slug: `${base}-${i}` } })) i++\<close>.
  It ends because the table is finite: the taken candidates from \<open>i\<close> on become fewer.
\<close>

function probe :: "table \<Rightarrow> ustring \<Rightarrow> nat \<Rightarrow> nat" where
  "probe tb base i = (if repo_exist tb (candidate base i) then probe tb base (Suc i) else i)"
  by pat_completeness auto
termination
proof (relation "measure (\<lambda>(tb, base, i). card {j. i \<le> j \<and> repo_exist tb (candidate base j)})")
  show "wf (measure (\<lambda>(tb, base, i). card {j. i \<le> j \<and> repo_exist tb (candidate base j)}))"
    by simp
next
  fix tb base i
  assume taken: "repo_exist tb (candidate base i)"
  have fin: "finite {j. i \<le> j \<and> repo_exist tb (candidate base j)}"
    using finite_taken [of tb base] by (rule rev_finite_subset) auto
  have "i \<in> {j. i \<le> j \<and> repo_exist tb (candidate base j)}"
    "i \<notin> {j. Suc i \<le> j \<and> repo_exist tb (candidate base j)}"
    using taken by simp_all
  moreover have "{j. Suc i \<le> j \<and> repo_exist tb (candidate base j)} \<subseteq>
        {j. i \<le> j \<and> repo_exist tb (candidate base j)}"
    by auto
  ultimately have "{j. Suc i \<le> j \<and> repo_exist tb (candidate base j)} \<subset>
        {j. i \<le> j \<and> repo_exist tb (candidate base j)}"
    by blast
  then have "card {j. Suc i \<le> j \<and> repo_exist tb (candidate base j)} <
             card {j. i \<le> j \<and> repo_exist tb (candidate base j)}"
    using fin by (rule psubset_card_mono [rotated])
  then show "((tb, base, Suc i), (tb, base, i)) \<in>
      measure (\<lambda>(tb, base, i). card {j. i \<le> j \<and> repo_exist tb (candidate base j)})"
    by simp
qed

declare probe.simps [simp del]

definition ensureUniqueSlug :: "table \<Rightarrow> ustring \<Rightarrow> ustring" where
  "ensureUniqueSlug tb base =
     (if \<not> repo_exist tb base then base else candidate base (probe tb base 2))"

subsection \<open>Requests\<close>

text \<open>\<open>CreateMenuDto\<close>; an optional field that is absent (or \<open>null\<close>) is \<open>None\<close>.\<close>

record CreateMenuDto =
  c_name :: ustring
  c_slug :: "ustring option"
  c_order :: "int option"
  c_isActive :: "bool option"
  c_parentId :: "int option"

text \<open>
  Modelled from the spec: the declaration of \<open>UpdateMenuDto\<close> (dto/update-menu.dto.ts) is
  not among the sources. The request carries "any subset of the same fields (plus
  \<open>parentId: null\<close> to detach)". The service tells an absent \<open>slug\<close>, \<open>order\<close>,
  \<open>isActive\<close> or \<open>parentId\<close> (\<open>None\<close>) from \<open>null\<close> (\<open>Some None\<close>); it treats a
  name that is \<open>null\<close> as absent.
\<close>

record UpdateMenuDto =
  u_name :: "ustring option"
  u_slug :: "ustring option option"
  u_order :: "int option option"
  u_isActive :: "bool option option"
  u_parentId :: "int option option"

subsection \<open>Helpers\<close>

text \<open>\<open>getPgErrorCode\<close>: only a driver error carries a code.\<close>

definition getPgErrorCode :: "error \<Rightarrow> string option" where
  "getPgErrorCode err = (case err of QueryFailedError code \<Rightarrow> Some code | _ \<Rightarrow> None)"

text \<open>
  The \<open>try\<close>/\<open>catch\<close> around \<open>this.repo.save\<close>, the same in \<open>create\<close> and \<open>update\<close>: code
  23505 becomes a \<open>BadRequestException\<close>, any other error is thrown on.
\<close>

definition save_or_conflict :: "table \<Rightarrow> menu \<Rightarrow> table \<times> (error + menu)" where
  "save_or_conflict tb entity =
     (case repo_save tb entity of
        (tb', Inr saved) \<Rightarrow> (tb', Inr saved)
      | (tb', Inl err) \<Rightarrow>
          if getPgErrorCode err = Some ''23505''
          then (tb', Inl (BadRequestException ''Duplicate slug or order for this parent''))
          else (tb', Inl err))"

text \<open>
  \<open>`menu-${randomUUID().slice(0, 8)}`\<close>; the UUID drawn is an argument of the operation.
\<close>

definition random_slug :: "ustring \<Rightarrow> ustring" where
  "random_slug uuid = ascii ''menu-'' @ take 8 uuid"

definition slug_or_random :: "unicode \<Rightarrow> ustring \<Rightarrow> ustring \<Rightarrow> ustring" where
  "slug_or_random U uuid source =
     (let baseSlug = unicodeSlug U source
      in if baseSlug = [] then random_slug uuid else baseSlug)"

subsection \<open>create\<close>

text \<open>The slug of a new menu: from \<open>const raw = dto.slug?.trim()\<close> to \<open>const slug\<close>.\<close>

definition create_slug :: "unicode \<Rightarrow> ustring \<Rightarrow> table \<Rightarrow> CreateMenuDto \<Rightarrow> ustring" where
  "create_slug U uuid tb dto =
     (let raw = map_option trim (c_slug dto);
          sourceForSlug =
            (case raw of
               None \<Rightarrow> c_name dto
             | Some r \<Rightarrow> if \<not> isEmptyOrHyphens (Some r) then r else c_name dto)
      in ensureUniqueSlug tb (slug_or_random U uuid sourceForSlug))"

text \<open>
  \<open>if (dto.parentId) { parent = await this.repo.findOne(...); if (!parent) throw ... }\<close>;
  the number 0 is falsy.
\<close>

definition create_parent :: "table \<Rightarrow> CreateMenuDto \<Rightarrow> error + menu option" where
  "create_parent tb dto =
     (case c_parentId dto of
        None \<Rightarrow> Inr None
      | Some p \<Rightarrow>
          if p = 0 then Inr None
          else
            case repo_findOne tb p of
              None \<Rightarrow> Inl (NotFoundException ''Parent not found'')
            | Some parent \<Rightarrow> Inr (Some parent))"

text \<open>\<open>parent?.id\<close> as the condition and the parameter of the query for the maximum.\<close>

definition parent_group :: "menu option \<Rightarrow> int option" where
  "parent_group parent =
     (case parent of
        None \<Rightarrow> None
      | Some p \<Rightarrow> (case menu_id p of None \<Rightarrow> None | Some i \<Rightarrow> if i = 0 then None else Some i))"

definition create_order :: "table \<Rightarrow> CreateMenuDto \<Rightarrow> menu option \<Rightarrow> int" where
  "create_order tb dto parent =
     (case c_order dto of
        Some n \<Rightarrow> n
      | None \<Rightarrow> max_order tb (parent_group parent) + 1)"

definition create_entity :: "CreateMenuDto \<Rightarrow> ustring \<Rightarrow> int \<Rightarrow> menu option \<Rightarrow> menu" where
  "create_entity dto slug n parent =
     \<lparr>menu_id = None, menu_name = trim (c_name dto), menu_slug = slug, menu_order = n,
      menu_isActive = (case c_isActive dto of None \<Rightarrow> True | Some b \<Rightarrow> b),
      menu_parent = Some (case parent of None \<Rightarrow> None | Some p \<Rightarrow> menu_id p),
      menu_children = None\<rparr>"

definition create :: "unicode \<Rightarrow> ustring \<Rightarrow> table \<Rightarrow> CreateMenuDto \<Rightarrow> table \<times> (error + menu)" where
  "create U uuid tb dto =
     (let slug = create_slug U uuid tb dto
      in case create_parent tb dto of
           Inl err \<Rightarrow> (tb, Inl err)
         | Inr parent \<Rightarrow>
             let n = create_order tb dto parent;
                 entity = create_entity dto slug n parent
             in save_or_conflict tb entity)"

subsection \<open>Queries\<close>

definition findTree :: "table \<Rightarrow> menu_tree list" where
  "findTree tb = repo_findTrees tb"

definition findTreeById :: "table \<Rightarrow> int \<Rightarrow> error + menu_tree" where
  "findTreeById tb i =
     (let trees = repo_findTrees tb
      in case find (\<lambda>t. row_id (tree_root t) = i) trees of
           None \<Rightarrow> Inl (NotFoundException ''Menu not found'')
         | Some root \<Rightarrow> Inr root)"

definition findOne :: "table \<Rightarrow> int \<Rightarrow> error + menu" where
  "findOne tb i =
     (case repo_findOne tb i of
        None \<Rightarrow> Inl (NotFoundException ''Menu not found'')
      | Some item \<Rightarrow> Inr item)"

subsection \<open>update\<close>

text \<open>Step 1, the name: the new name and the flag \<open>nameChanged\<close>.\<close>

definition update_name :: "UpdateMenuDto \<Rightarrow> menu \<Rightarrow> menu \<times> bool" where
  "update_name dto m =
     (case u_name dto of
        None \<Rightarrow> (m, False)
      | Some n \<Rightarrow>
          let trimmed = trim n;
              nameChanged = (trimmed \<noteq> [] \<and> trimmed \<noteq> menu_name m)
          in (m\<lparr>menu_name := trimmed\<rparr>, nameChanged))"

text \<open>Step 2, the slug; \<open>m\<close> is the menu after step 1.\<close>

definition reslug :: "unicode \<Rightarrow> ustring \<Rightarrow> table \<Rightarrow> ustring \<Rightarrow> menu \<Rightarrow> menu" where
  "reslug U uuid tb source m =
     (let baseSlug = slug_or_random U uuid source
      in if baseSlug \<noteq> menu_slug m then m\<lparr>menu_slug := ensureUniqueSlug tb baseSlug\<rparr> else m)"

definition update_slug ::
  "unicode \<Rightarrow> ustring \<Rightarrow> table \<Rightarrow> UpdateMenuDto \<Rightarrow> bool \<Rightarrow> menu \<Rightarrow> menu" where
  "update_slug U uuid tb dto nameChanged m =
     (case u_slug dto of
        Some given \<Rightarrow>
          let raw = (case given of None \<Rightarrow> [] | Some s \<Rightarrow> trim s);
              source =
                (if \<not> isEmptyOrHyphens (Some raw) then raw
                 else case u_name dto of Some n \<Rightarrow> trim n | None \<Rightarrow> menu_name m)
          in reslug U uuid tb source m
      | None \<Rightarrow> if nameChanged then reslug U uuid tb (menu_name m) m else m)"

text \<open>Step 3, the parent.\<close>

definition update_parent :: "table \<Rightarrow> int \<Rightarrow> UpdateMenuDto \<Rightarrow> menu \<Rightarrow> error + menu" where
  "update_parent tb i dto m =
     (case u_parentId dto of
        None \<Rightarrow> Inr m
      | Some None \<Rightarrow> Inr (m\<lparr>menu_parent := Some None\<rparr>)
      | Some (Some p) \<Rightarrow>
          if p = i then Inl (BadRequestException ''Cannot set parent to itself'')
          else
            case repo_findOne tb p of
              None \<Rightarrow> Inl (NotFoundException ''New parent not found'')
            | Some newParent \<Rightarrow>
                let descendants = repo_findDescendants tb m
                in if list_ex (\<lambda>d. Some (row_id d) = menu_id newParent) descendants
                   then Inl (BadRequestException ''Cannot move a node into its descendant'')
                   else Inr (m\<lparr>menu_parent := Some (menu_id newParent)\<rparr>))"

text \<open>
  Step 4, order and isActive: \<open>dto.order !== undefined && dto.order !== null\<close>, and the
  same for \<open>isActive\<close>.
\<close>

definition update_flags :: "UpdateMenuDto \<Rightarrow> menu \<Rightarrow> menu" where
  "update_flags dto m =
     (let m1 = (case u_order dto of Some (Some n) \<Rightarrow> m\<lparr>menu_order := n\<rparr> | _ \<Rightarrow> m)
      in case u_isActive dto of Some (Some b) \<Rightarrow> m1\<lparr>menu_isActive := b\<rparr> | _ \<Rightarrow> m1)"

definition update ::
  "unicode \<Rightarrow> ustring \<Rightarrow> table \<Rightarrow> int \<Rightarrow> UpdateMenuDto \<Rightarrow> table \<times> (error + menu)" where
  "update U uuid tb i dto =
     (case repo_findOne tb i of
        None \<Rightarrow> (tb, Inl (NotFoundException ''Menu not found''))
      | Some menu \<Rightarrow>
          let (m1, nameChanged) = update_name dto menu;
              m2 = update_slug U uuid tb dto nameChanged m1
          in case update_parent tb i dto m2 of
               Inl err \<Rightarrow> (tb, Inl err)
             | Inr m3 \<Rightarrow> save_or_conflict tb (update_flags dto m3))"

text \<open>
  The object that \<open>update\<close> hands to \<open>save\<close> when the guard of step 3 lets the node
  move under the node \<open>p\<close>: the steps 1, 2 and 4 applied to the loaded menu, and the
  parent set.
\<close>

definition moved :: "unicode \<Rightarrow> ustring \<Rightarrow> table \<Rightarrow> UpdateMenuDto \<Rightarrow> menu \<Rightarrow> int \<Rightarrow> menu" where
  "moved U uuid tb dto menu p =
     (let (m1, nameChanged) = update_name dto menu;
          m2 = update_slug U uuid tb dto nameChanged m1
      in update_flags dto (m2\<lparr>menu_parent := Some (Some p)\<rparr>))"

subsection \<open>remove\<close>

text \<open>\<open>menu.children?.length\<close> as a condition.\<close>

definition has_children :: "menu \<Rightarrow> bool" where
  "has_children m = (case menu_children m of None \<Rightarrow> False | Some cs \<Rightarrow> cs \<noteq> [])"

definition remove :: "table \<Rightarrow> int \<Rightarrow> table \<times> (error + unit)" where
  "remove tb i =
     (case findOne tb i of
        Inl err \<Rightarrow> (tb, Inl err)
      | Inr menu \<Rightarrow>
          if has_children menu
          then (tb, Inl (BadRequestException ''Remove/move children first''))
          else repo_remove tb menu)"

subsection \<open>Tables for the examples\<close>

definition mk_row :: "int \<Rightarrow> string \<Rightarrow> string \<Rightarrow> int \<Rightarrow> int option \<Rightarrow> row" where
  "mk_row i n s k p =
     \<lparr>row_id = i, row_name = ascii n, row_slug = ascii s, row_order = k,
      row_isActive = True, row_parentId = p\<rparr>"

text \<open>The chain A \<open>\<rightarrow>\<close> B \<open>\<rightarrow>\<close> C of the specification, and a second root D.\<close>

definition chain :: table where
  "chain =
     [mk_row 1 ''A'' ''a'' 1 None, mk_row 2 ''B'' ''b'' 1 (Some 1),
      mk_row 3 ''C'' ''c'' 1 (Some 2), mk_row 4 ''D'' ''a-2'' 5 None]"

text \<open>The equations that evaluate the service on a concrete table.\<close>

lemmas service_eval =
  create_def create_slug_def create_parent_def create_order_def create_entity_def
  parent_group_def max_order_def siblings_def slug_or_random_def random_slug_def
  ensureUniqueSlug_def repo_exist_def repo_findOne_def load_def save_or_conflict_def getPgErrorCode_def
  repo_save_def save_error_def value_error_def in_int4_def has_nul_def too_long_def
  as_stored_def unique_violation_def next_id_def insert_row_def update_row_def
  chain_def mk_row_def isEmptyOrHyphens_def Let_def


text \<open>Requests for the examples.\<close>

definition shop_request :: CreateMenuDto where
  "shop_request =
     \<lparr>c_name = ascii ''Shop'', c_slug = None, c_order = None, c_isActive = None,
      c_parentId = None\<rparr>"

definition hidden_request :: CreateMenuDto where
  "hidden_request =
     \<lparr>c_name = ascii '' News '', c_slug = Some (ascii ''a''), c_order = None,
      c_isActive = Some False, c_parentId = Some 2\<rparr>"

definition orphan_request :: CreateMenuDto where
  "orphan_request =
     \<lparr>c_name = ascii ''Lost'', c_slug = None, c_order = None, c_isActive = None,
      c_parentId = Some 9\<rparr>"

definition patch :: "ustring option \<Rightarrow> int option option \<Rightarrow> UpdateMenuDto" where
  "patch n p = \<lparr>u_name = n, u_slug = None, u_order = None, u_isActive = None, u_parentId = p\<rparr>"

definition patch_slug :: "ustring \<Rightarrow> int option option \<Rightarrow> UpdateMenuDto" where
  "patch_slug s p =
     \<lparr>u_name = None, u_slug = Some (Some s), u_order = None, u_isActive = None,
      u_parentId = p\<rparr>"

definition patch_order :: "int option \<Rightarrow> int option option \<Rightarrow> UpdateMenuDto" where
  "patch_order n p =
     \<lparr>u_name = None, u_slug = None, u_order = Some n, u_isActive = None, u_parentId = p\<rparr>"

lemmas update_eval =
  update_def update_name_def update_slug_def reslug_def update_parent_def update_flags_def
  repo_findDescendants_def patch_def patch_slug_def patch_order_def moved_def stored_parent_def


section \<open>The second copy of the service\<close>

text \<open>
  The sources hold a second \<open>MenusService\<close>, the one the README describes. Its
  \<open>findTree\<close>, \<open>findTreeById\<close>, \<open>findOne\<close> and \<open>remove\<close> are the first copy's, word for
  word. Its \<open>create\<close> and \<open>update\<close> differ: the slug comes from \<open>toSlug\<close>, a taken slug
  is refused instead of renumbered, \<open>create\<close> saves inside \<open>dataSource.transaction\<close>, and
  \<open>update\<close> saves without a \<open>catch\<close>.
\<close>

text \<open>The class \<open>\w\<close>: ASCII digits and letters, and the underscore.\<close>

definition is_word :: "nat \<Rightarrow> bool" where
  "is_word c \<longleftrightarrow> (48 \<le> c \<and> c \<le> 57) \<or> (65 \<le> c \<and> c \<le> 90) \<or> (97 \<le> c \<and> c \<le> 122) \<or> c = 95"

text \<open>\<open>s.toLowerCase().trim().replace(/[^\w\s-]/g, '').replace(/\s+/g, '-')\<close>\<close>

definition toSlug :: "unicode \<Rightarrow> ustring \<Rightarrow> ustring" where
  "toSlug U s =
     replace_runs is_space [hyphen]
       (replace_each (\<lambda>c. \<not> (is_word c \<or> is_space c \<or> c = hyphen)) []
         (trim (lower U s)))"

text \<open>\<open>findOne({ where: { slug } })\<close>\<close>

definition repo_findOne_slug :: "table \<Rightarrow> ustring \<Rightarrow> menu option" where
  "repo_findOne_slug tb s = map_option load (find (\<lambda>r. row_slug r = s) tb)"

text \<open>
  \<open>dataSource.transaction(async (em) => ...)\<close>: the callback works on the table through
  the entity manager; when it throws, the transaction is rolled back and the error thrown
  on. The advisory lock orders concurrent transactions and has no effect on a single one.
\<close>

definition transaction ::
  "table \<Rightarrow> (table \<Rightarrow> table \<times> (error + 'a)) \<Rightarrow> table \<times> (error + 'a)" where
  "transaction tb body =
     (case body tb of
        (tb', Inl err) \<Rightarrow> (tb, Inl err)
      | (tb', Inr v) \<Rightarrow> (tb', Inr v))"

text \<open>\<open>const slug = dto.slug?.trim() || toSlug(dto.name)\<close>: the empty string is falsy.\<close>

definition create_v2_slug :: "unicode \<Rightarrow> CreateMenuDto \<Rightarrow> ustring" where
  "create_v2_slug U dto =
     (case map_option trim (c_slug dto) of
        None \<Rightarrow> toSlug U (c_name dto)
      | Some s \<Rightarrow> if s \<noteq> [] then s else toSlug U (c_name dto))"

definition create_v2 :: "unicode \<Rightarrow> table \<Rightarrow> CreateMenuDto \<Rightarrow> table \<times> (error + menu)" where
  "create_v2 U tb dto =
     (let slug = create_v2_slug U dto
      in case repo_findOne_slug tb slug of
           Some found \<Rightarrow> (tb, Inl (BadRequestException ''Slug already exists''))
         | None \<Rightarrow>
             case create_parent tb dto of
               Inl err \<Rightarrow> (tb, Inl err)
             | Inr parent \<Rightarrow>
                 transaction tb
                   (\<lambda>em. let nextOrder = create_order em dto parent;
                             entity = create_entity dto slug nextOrder parent
                         in save_or_conflict em entity))"

text \<open>\<open>if (dto.name) { menu.name = dto.name.trim(); menu.slug = toSlug(dto.name); }\<close>\<close>

definition update_v2_name :: "unicode \<Rightarrow> UpdateMenuDto \<Rightarrow> menu \<Rightarrow> menu" where
  "update_v2_name U dto m =
     (case u_name dto of
        None \<Rightarrow> m
      | Some n \<Rightarrow> if n \<noteq> [] then m\<lparr>menu_name := trim n, menu_slug := toSlug U n\<rparr> else m)"

text \<open>\<open>if (dto.slug) { ... if (dupe && dupe.id !== id) throw ...; menu.slug = slug; }\<close>\<close>

definition update_v2_slug :: "table \<Rightarrow> int \<Rightarrow> UpdateMenuDto \<Rightarrow> menu \<Rightarrow> error + menu" where
  "update_v2_slug tb i dto m =
     (case u_slug dto of
        Some (Some s) \<Rightarrow>
          if s \<noteq> [] then
            let slug = trim s
            in case repo_findOne_slug tb slug of
                 None \<Rightarrow> Inr (m\<lparr>menu_slug := slug\<rparr>)
               | Some dupe \<Rightarrow>
                   if menu_id dupe \<noteq> Some i
                   then Inl (BadRequestException ''Slug already exists'')
                   else Inr (m\<lparr>menu_slug := slug\<rparr>)
          else Inr m
      | _ \<Rightarrow> Inr m)"

text \<open>
  \<open>if (dto.order !== undefined) menu.order = dto.order\<close>, and the same for \<open>isActive\<close>:
  \<open>null\<close> is assigned like a value. The columns are declared \<open>NOT NULL\<close>, so the
  object cannot be stored then; it keeps its value in the model, and \<open>update_v2_nulled\<close>
  records that one of the two fields holds \<open>null\<close>.
\<close>

definition update_v2_flags :: "UpdateMenuDto \<Rightarrow> menu \<Rightarrow> menu" where
  "update_v2_flags dto m =
     (let m1 = (case u_order dto of Some (Some n) \<Rightarrow> m\<lparr>menu_order := n\<rparr> | _ \<Rightarrow> m)
      in case u_isActive dto of Some (Some b) \<Rightarrow> m1\<lparr>menu_isActive := b\<rparr> | _ \<Rightarrow> m1)"

definition update_v2_nulled :: "UpdateMenuDto \<Rightarrow> bool" where
  "update_v2_nulled dto \<longleftrightarrow> u_order dto = Some None \<or> u_isActive dto = Some None"

text \<open>
  \<open>save\<close> of an object that holds \<open>null\<close> in \<open>order\<close> or \<open>isActive\<close>: the checks of
  the values come first (an order that is \<open>null\<close> has no range to check), then the
  \<open>NOT NULL\<close> column refuses the row (23502).
\<close>

definition null_error :: "UpdateMenuDto \<Rightarrow> menu \<Rightarrow> string" where
  "null_error dto e =
     (if has_nul (menu_name e) \<or> has_nul (menu_slug e) then ''22021''
      else if u_order dto \<noteq> Some None \<and> \<not> in_int4 (menu_order e) then ''22003''
      else if too_long 150 (menu_name e) \<or> too_long 180 (menu_slug e) then ''22001''
      else ''23502'')"

definition update_v2 ::
  "unicode \<Rightarrow> table \<Rightarrow> int \<Rightarrow> UpdateMenuDto \<Rightarrow> table \<times> (error + menu)" where
  "update_v2 U tb i dto =
     (case findOne tb i of
        Inl err \<Rightarrow> (tb, Inl err)
      | Inr menu \<Rightarrow>
          case update_v2_slug tb i dto (update_v2_name U dto menu) of
            Inl err \<Rightarrow> (tb, Inl err)
          | Inr m2 \<Rightarrow>
              case update_parent tb i dto (update_v2_flags dto m2) of
                Inl err \<Rightarrow> (tb, Inl err)
              | Inr m3 \<Rightarrow>
                  if update_v2_nulled dto
                  then (tb, Inl (QueryFailedError (null_error dto m3)))
                  else repo_save tb m3)"

text \<open>
  The check of the slug in words of its own: the request supplies a non-empty slug, and
  the node found under the trimmed slug is another node.
\<close>

definition slug_refused :: "table \<Rightarrow> int \<Rightarrow> UpdateMenuDto \<Rightarrow> bool" where
  "slug_refused tb i dto =
     (case u_slug dto of
        Some (Some s) \<Rightarrow>
          s \<noteq> [] \<and>
          (case repo_findOne_slug tb (trim s) of
             None \<Rightarrow> False
           | Some dupe \<Rightarrow> menu_id dupe \<noteq> Some i)
      | _ \<Rightarrow> False)"

text \<open>
  The object that the second \<open>update\<close> hands to \<open>save\<close> when the slug is not refused
  and the guard lets the node move under the node \<open>p\<close>.
\<close>

definition moved_v2 :: "unicode \<Rightarrow> UpdateMenuDto \<Rightarrow> menu \<Rightarrow> int \<Rightarrow> menu" where
  "moved_v2 U dto menu p =
     (let m1 = update_v2_name U dto menu;
          m2 = (case u_slug dto of
                  Some (Some s) \<Rightarrow> if s \<noteq> [] then m1\<lparr>menu_slug := trim s\<rparr> else m1
                | _ \<Rightarrow> m1)
      in (update_v2_flags dto m2)\<lparr>menu_parent := Some (Some p)\<rparr>)"

lemmas service_v2_eval =
  create_v2_def create_v2_slug_def update_v2_def update_v2_name_def update_v2_slug_def
  update_v2_flags_def update_v2_nulled_def null_error_def slug_refused_def moved_v2_def
  toSlug_def is_word_def lower_fragment_def repo_findOne_slug_def transaction_def findOne_def

definition quiet_request :: CreateMenuDto where
  "quiet_request =
     \<lparr>c_name = ascii '' News '', c_slug = None, c_order = None, c_isActive = Some False,
      c_parentId = Some 2\<rparr>"

section \<open>Properties of the slug utility\<close>

subsection \<open>The regular expressions against the specification's steps\<close>

lemma squeeze_True: "squeeze P True s = squeeze P False (dropWhile P s)"
  by (induction s) auto

lemma replace_runs_squeeze: "replace_runs P [hyphen] s = squeeze P False s"
  by (induction P "[hyphen]" s rule: replace_runs.induct) (auto simp: squeeze_True)

lemma replace_each_Nil: "replace_each P [] s = filter (\<lambda>c. \<not> P c) s"
  by (induction s) (auto simp: replace_each_def)

lemma strip_tail_rev: "strip_tail s = rev (dropWhile is_hyphen (rev s))"
proof (induction s)
  case Nil
  show ?case by simp
next
  case (Cons c cs)
  show ?case
  proof (cases "list_all is_hyphen cs")
    case True
    then show ?thesis using Cons
      by (auto simp: dropWhile_append list_all_iff)
  next
    case False
    then show ?thesis using Cons
      by (auto simp: dropWhile_append list_all_iff)
  qed
qed

lemma strip_edges_eq: "strip_edges s = strip_hyphens s"
  by (cases s) (auto simp: strip_edges_def strip_hyphens_def strip_tail_rev)

lemma unicodeSlug_slug_steps:
  "unicodeSlug U x = (if x = [] then [] else slug_steps U (nfkc U x))"
  by (simp add: unicodeSlug_def slug_steps_def replace_runs_squeeze replace_each_Nil
      strip_edges_eq Let_def)

subsection \<open>Blank input\<close>

lemma dropWhile_all: "(\<forall>x\<in>set (dropWhile P s). P x) \<longleftrightarrow> (\<forall>x\<in>set s. P x)"
  by (induction s) auto

lemma trim_Nil_iff: "trim s = [] \<longleftrightarrow> list_all is_space s"
  by (simp add: trim_def dropWhile_eq_Nil_conv list_all_iff dropWhile_all)

lemma isEmptyOrHyphens_blank: "isEmptyOrHyphens (Some x) = blank x"
  by (auto simp: isEmptyOrHyphens_def blank_def trim_Nil_iff replace_each_Nil list_all_iff)

lemma set_trim: "set (trim s) \<subseteq> set s"
  unfolding trim_def by (metis set_rev set_dropWhileD subsetI)

lemma set_strip_hyphens: "set (strip_hyphens s) \<subseteq> set s"
  unfolding strip_hyphens_def by (metis set_rev set_dropWhileD subsetI)

lemma set_squeeze: "set (squeeze P b s) \<subseteq> insert hyphen {c \<in> set s. \<not> P c}"
  by (induction s arbitrary: b) auto

lemma strip_hyphens_all: "list_all is_hyphen s \<Longrightarrow> strip_hyphens s = []"
  by (simp add: strip_hyphens_def list_all_iff dropWhile_all)

lemma blank_steps:
  assumes "blank t"
  shows "strip_hyphens (squeeze is_hyphen False (filter K (squeeze is_space False (trim t)))) = []"
proof -
  have "\<forall>c \<in> set (trim t). is_space c \<or> is_hyphen c"
    using assms set_trim [of t] by (auto simp: blank_def list_all_iff)
  then have "\<forall>c \<in> set (squeeze is_space False (trim t)). is_hyphen c"
    using set_squeeze [of is_space False "trim t"] by (auto simp: is_hyphen_def)
  then have "\<forall>c \<in> set (filter K (squeeze is_space False (trim t))). is_hyphen c"
    by simp
  then have "\<forall>c \<in> set (squeeze is_hyphen False (filter K (squeeze is_space False (trim t)))). is_hyphen c"
    using set_squeeze [of is_hyphen False "filter K (squeeze is_space False (trim t))"]
    by (auto simp: is_hyphen_def)
  then show ?thesis
    by (simp add: strip_hyphens_all list_all_iff)
qed

lemma hangul_compose_blank:
  "blank (l # cs) \<Longrightarrow> hangul_compose l cs = l # cs"
proof (induction cs arbitrary: l)
  case Nil
  show ?case by simp
next
  case (Cons c cs)
  from Cons.prems have l: "is_space l \<or> is_hyphen l" and rest: "blank (c # cs)"
    by (simp_all add: blank_def)
  from l have a: "(4352 \<le> l \<and> l < 4371 \<and> 4449 \<le> c \<and> c < 4470) = False"
    and b: "(44032 \<le> l \<and> l < 55204 \<and> (l - 44032) mod 28 = 0 \<and> 4519 < c \<and> c < 4547) = False"
    by (auto simp: is_space_def is_hyphen_def hyphen_def)
  show ?case
    by (simp only: hangul_compose.simps a b if_False Cons.IH [OF rest])
qed

lemma nfkc_hangul_blank: "blank s \<Longrightarrow> blank (nfkc_hangul s)"
  by (cases s) (simp_all add: nfkc_hangul_def hangul_compose_blank)

subsection \<open>The shape of a slug\<close>


lemma is_hyphen_hyphen: "is_hyphen hyphen"
  by (simp add: is_hyphen_def)

lemma not_space_hyphen: "\<not> is_space hyphen"
  by (simp add: is_space_def hyphen_def)

lemma keep_char_hyphen: "keep_char U hyphen"
  by (simp add: keep_char_def)

lemma squeeze_no_hh:
  "no_hh (squeeze is_hyphen b s) \<and>
   (b \<longrightarrow> squeeze is_hyphen b s = [] \<or> \<not> is_hyphen (hd (squeeze is_hyphen b s)))"
proof (induction s arbitrary: b)
  case Nil
  show ?case by simp
next
  case (Cons c cs)
  show ?case
  proof (cases "is_hyphen c")
    case True
    have t: "no_hh (squeeze is_hyphen True cs)"
      "squeeze is_hyphen True cs = [] \<or> \<not> is_hyphen (hd (squeeze is_hyphen True cs))"
      using Cons.IH [of True] by simp_all
    then show ?thesis using True
      by (cases "squeeze is_hyphen True cs") (auto simp: is_hyphen_hyphen)
  next
    case False
    have f: "no_hh (squeeze is_hyphen False cs)"
      using Cons.IH [of False] by simp
    then show ?thesis using False
      by (cases "squeeze is_hyphen False cs") auto
  qed
qed

lemma no_hh_dropWhile: "no_hh s \<Longrightarrow> no_hh (dropWhile P s)"
proof (induction s)
  case Nil
  show ?case by simp
next
  case (Cons c cs)
  then show ?case by (cases cs) auto
qed

lemma strip_tail_hd: "strip_tail s \<noteq> [] \<Longrightarrow> hd (strip_tail s) = hd s"
  by (cases s) (auto split: if_splits)

lemma no_hh_Cons: "no_hh (c # cs) \<Longrightarrow> no_hh cs"
  by (cases cs) auto

lemma no_hh_strip_tail: "no_hh s \<Longrightarrow> no_hh (strip_tail s)"
proof (induction s)
  case Nil
  show ?case by simp
next
  case (Cons c cs)
  have ih: "no_hh (strip_tail cs)"
    using Cons no_hh_Cons by blast
  show ?case
  proof (cases "strip_tail cs")
    case Nil
    then show ?thesis by simp
  next
    case (Cons d ds)
    then have "hd cs = d" "cs \<noteq> []"
      using strip_tail_hd [of cs] by auto
    then obtain es where cs: "cs = d # es" by (cases cs) auto
    show ?thesis using ih Cons.prems \<open>strip_tail cs = d # ds\<close> unfolding cs
      by (auto split: if_splits)
  qed
qed

lemma strip_hyphens_tail: "strip_hyphens s = strip_tail (dropWhile is_hyphen s)"
  by (simp add: strip_hyphens_def strip_tail_rev)

lemma strip_tail_idem: "strip_tail (strip_tail s) = strip_tail s"
  by (simp add: strip_tail_rev)

lemma strip_hyphens_idem: "strip_hyphens (strip_hyphens s) = strip_hyphens s"
proof (cases "strip_hyphens s")
  case Nil
  show ?thesis unfolding Nil by (simp add: strip_hyphens_def)
next
  case (Cons c cs)
  let ?w = "dropWhile is_hyphen s"
  from Cons have ne: "strip_tail ?w \<noteq> []" and "hd (strip_tail ?w) = c"
    by (simp_all add: strip_hyphens_tail)
  have wne: "?w \<noteq> []"
  proof
    assume "?w = []"
    then have "strip_tail ?w = []" by (simp only: strip_tail.simps)
    with ne show False by simp
  qed
  have "hd ?w = c"
    using strip_tail_hd [OF ne] \<open>hd (strip_tail ?w) = c\<close> by simp
  then have "\<not> is_hyphen c"
    using hd_dropWhile [OF wne] by simp
  then have "dropWhile is_hyphen (strip_hyphens s) = strip_hyphens s"
    using Cons by simp
  then show ?thesis
    using strip_tail_idem [of ?w] by (simp add: strip_hyphens_tail)
qed

lemma no_hh_strip_hyphens: "no_hh s \<Longrightarrow> no_hh (strip_hyphens s)"
  by (simp add: strip_hyphens_tail no_hh_strip_tail no_hh_dropWhile)

lemma squeeze_none: "\<forall>c \<in> set s. \<not> P c \<Longrightarrow> squeeze P b s = s"
  by (induction s arbitrary: b) auto

lemma dropWhile_none: "\<forall>c \<in> set s. \<not> P c \<Longrightarrow> dropWhile P s = s"
  by (cases s) auto

lemma trim_none: "\<forall>c \<in> set s. \<not> is_space c \<Longrightarrow> trim s = s"
  by (simp add: trim_def dropWhile_none)

lemma squeeze_fixed:
  "no_hh s \<Longrightarrow> (b \<longrightarrow> s = [] \<or> \<not> is_hyphen (hd s)) \<Longrightarrow> squeeze is_hyphen b s = s"
proof (induction s arbitrary: b)
  case Nil
  show ?case by simp
next
  case (Cons c cs)
  have tl: "no_hh cs" using Cons.prems(1) no_hh_Cons by blast
  show ?case
  proof (cases "is_hyphen c")
    case True
    then have nb: "\<not> b" using Cons.prems(2) by auto
    have "cs = [] \<or> \<not> is_hyphen (hd cs)"
      using Cons.prems(1) True by (cases cs) auto
    then have "squeeze is_hyphen True cs = cs"
      using Cons.IH [OF tl, of True] by simp
    moreover have "c = hyphen" using True by (simp add: is_hyphen_def)
    ultimately show ?thesis using True nb by simp
  next
    case False
    then show ?thesis using Cons.IH [OF tl, of False] by simp
  qed
qed

lemma slug_steps_set:
  "set (slug_steps U t) \<subseteq> {c. keep_char U c \<and> \<not> is_space c}"
proof -
  let ?a = "squeeze is_space False (trim t)"
  let ?b = "filter (keep_char U) ?a"
  let ?c = "squeeze is_hyphen False ?b"
  have a: "\<forall>c \<in> set ?a. \<not> is_space c"
    using set_squeeze [of is_space False "trim t"] not_space_hyphen by auto
  then have b: "\<forall>c \<in> set ?b. keep_char U c \<and> \<not> is_space c"
    by simp
  then have c: "\<forall>c \<in> set ?c. keep_char U c \<and> \<not> is_space c"
    using set_squeeze [of is_hyphen False ?b] not_space_hyphen keep_char_hyphen by auto
  then show ?thesis
    using set_strip_hyphens [of ?c] by (auto simp: slug_steps_def)
qed

lemma slug_steps_fixed:
  assumes "y = slug_steps U t"
  shows "slug_steps U y = y"
proof -
  let ?c = "squeeze is_hyphen False (filter (keep_char U) (squeeze is_space False (trim t)))"
  have y: "y = strip_hyphens ?c" using assms by (simp add: slug_steps_def)
  have chars: "\<forall>c \<in> set y. keep_char U c \<and> \<not> is_space c"
    using slug_steps_set [of U t] assms by auto
  have 1: "trim y = y" using chars by (simp add: trim_none)
  have 2: "squeeze is_space False y = y" using chars by (simp add: squeeze_none)
  have 3: "filter (keep_char U) y = y" using chars by (simp add: filter_id_conv)
  have "no_hh y" unfolding y using squeeze_no_hh [of False] by (simp add: no_hh_strip_hyphens)
  then have 4: "squeeze is_hyphen False y = y" by (simp add: squeeze_fixed)
  have 5: "strip_hyphens y = y" unfolding y by (rule strip_hyphens_idem)
  show ?thesis
    unfolding slug_steps_def 1 2 3 4 5 ..
qed

text \<open>The examples of the specification's section 8.\<close>

lemma unicodeSlug_examples:
  "unicodeSlug unicode_fragment (ascii ''  Hello   World!! '') = ascii ''Hello-World''"
  "unicodeSlug unicode_fragment [99, 97, 102, 233] = [99, 97, 102, 233]"
  "unicodeSlug unicode_fragment (ascii ''---'') = []"
  by (simp_all add: slug_eval)

text \<open>
  C6. For every input string the slug normalizer returns the result of the steps of the
  specification: NFKC normalization and trimming, every whitespace run replaced by one
  hyphen, every character removed that is not a letter, a digit, hyphen, underscore,
  period or tilde, consecutive hyphens collapsed, leading and trailing hyphens stripped.
  For every input the helper predicate \<open>isEmptyOrHyphens\<close> classifies as effectively
  empty, the result is the empty string. The runtime's NFKC enters through one property
  it has: it maps a string of whitespace and hyphens to a string of whitespace and
  hyphens.
\<close>

theorem unicodeSlug_refines_spec:
  assumes "\<And>s. blank s \<Longrightarrow> blank (nfkc U s)"
  shows "unicodeSlug U x = normalize_spec U x \<and>
         (isEmptyOrHyphens (Some x) \<longrightarrow> unicodeSlug U x = [])"
proof -
  have blank_result: "slug_steps U (nfkc U s) = []" if "blank s" for s
    using assms [OF that] by (simp add: slug_steps_def blank_steps)
  have "slug_steps U (nfkc U []) = []"
    by (rule blank_result) (simp add: blank_def)
  then have eq: "unicodeSlug U x = normalize_spec U x"
    by (simp add: unicodeSlug_slug_steps normalize_spec_def)
  have "unicodeSlug U x = []" if "isEmptyOrHyphens (Some x)"
    using that blank_result [of x] by (simp add: isEmptyOrHyphens_blank unicodeSlug_slug_steps)
  with eq show ?thesis by simp
qed

theorem unicodeSlug_refines_spec_witness:
  "isEmptyOrHyphens (Some (ascii '' - -- '')) \<and>
   unicodeSlug unicode_fragment (ascii '' - -- '') =
     normalize_spec unicode_fragment (ascii '' - -- '') \<and>
   unicodeSlug unicode_fragment (ascii '' - -- '') = []"
proof -
  have h: "\<And>s. blank s \<Longrightarrow> blank (nfkc unicode_fragment s)"
    by (simp add: unicode_fragment_def nfkc_hangul_blank)
  have e: "isEmptyOrHyphens (Some (ascii '' - -- ''))"
    by (simp add: isEmptyOrHyphens_def slug_eval)
  show ?thesis
    using unicodeSlug_refines_spec [of unicode_fragment "ascii '' - -- ''", OF h] e by blast
qed

text \<open>
  C9 as stated, idempotence on every string, fails: the leading consonant U+1100 and the
  vowel U+1161 are letters, and NFKC does not compose them while the exclamation mark
  stands between them. The slug of the three characters is the two jamo, now adjacent;
  normalizing that slug composes them to the syllable U+AC00.
\<close>

theorem unicodeSlug_not_idempotent:
  "unicodeSlug unicode_fragment [4352, 33, 4449] = [4352, 4449] \<and>
   unicodeSlug unicode_fragment (unicodeSlug unicode_fragment [4352, 33, 4449]) = [44032]"
  by (simp add: slug_eval)

text \<open>
  C9, amended. The slug normalizer is idempotent on every string whose slug NFKC leaves
  unchanged: if \<open>NFKC (normalize x) = normalize x\<close> then
  \<open>normalize (normalize x) = normalize x\<close>.
\<close>

theorem unicodeSlug_idempotent:
  assumes "nfkc U (unicodeSlug U x) = unicodeSlug U x"
  shows "unicodeSlug U (unicodeSlug U x) = unicodeSlug U x"
proof (cases "unicodeSlug U x = []")
  case True
  then show ?thesis by (simp add: unicodeSlug_def)
next
  case False
  then have y: "unicodeSlug U x = slug_steps U (nfkc U x)"
    by (simp add: unicodeSlug_slug_steps split: if_splits)
  have "unicodeSlug U (unicodeSlug U x) = slug_steps U (nfkc U (unicodeSlug U x))"
    using False by (simp add: unicodeSlug_slug_steps)
  also have "\<dots> = slug_steps U (unicodeSlug U x)"
    by (simp only: assms)
  also have "\<dots> = unicodeSlug U x"
    by (rule slug_steps_fixed [OF y])
  finally show ?thesis .
qed

theorem unicodeSlug_idempotent_witness:
  "nfkc unicode_fragment (unicodeSlug unicode_fragment (ascii ''  Hello   World!! '')) =
     unicodeSlug unicode_fragment (ascii ''  Hello   World!! '') \<and>
   unicodeSlug unicode_fragment (unicodeSlug unicode_fragment (ascii ''  Hello   World!! '')) =
     unicodeSlug unicode_fragment (ascii ''  Hello   World!! '')"
proof -
  have h: "nfkc unicode_fragment (unicodeSlug unicode_fragment (ascii ''  Hello   World!! '')) =
     unicodeSlug unicode_fragment (ascii ''  Hello   World!! '')"
    by (simp add: slug_eval)
  show ?thesis
    using unicodeSlug_idempotent [of unicode_fragment "ascii ''  Hello   World!! ''", OF h] h
    by simp
qed

section \<open>Properties of the service\<close>

subsection \<open>ensureUniqueSlug\<close>

lemma probe_first_free:
  "i \<le> probe tb base i \<and> \<not> repo_exist tb (candidate base (probe tb base i)) \<and>
   (\<forall>j. i \<le> j \<and> j < probe tb base i \<longrightarrow> repo_exist tb (candidate base j))"
proof (induction tb base i rule: probe.induct)
  case (1 tb base i)
  show ?case
  proof (cases "repo_exist tb (candidate base i)")
    case False
    then have "probe tb base i = i" by (simp add: probe.simps [of tb base i])
    then show ?thesis using False by auto
  next
    case True
    then have eq: "probe tb base i = probe tb base (Suc i)"
      by (simp add: probe.simps [of tb base i])
    have ih: "Suc i \<le> probe tb base (Suc i)"
      "\<not> repo_exist tb (candidate base (probe tb base (Suc i)))"
      "\<forall>j. Suc i \<le> j \<and> j < probe tb base (Suc i) \<longrightarrow> repo_exist tb (candidate base j)"
      using "1.IH" [OF True] by simp_all
    have "repo_exist tb (candidate base j)" if "i \<le> j" "j < probe tb base (Suc i)" for j
    proof (cases "j = i")
      case True
      then show ?thesis using \<open>repo_exist tb (candidate base i)\<close> by simp
    next
      case False
      then have "Suc i \<le> j" using that by simp
      then show ?thesis using ih(3) that by simp
    qed
    then show ?thesis using ih(1,2) unfolding eq by auto
  qed
qed

lemma candidate_inj: "candidate base i = candidate base j \<Longrightarrow> i = j"
  by (metis candidate_index)

lemma decimal_2: "decimal 2 = [50]" and decimal_3: "decimal 3 = [51]"
  by (simp_all add: decimal.simps)

text \<open>
  C3. The slug uniqueness resolver returns the base unchanged when no stored row has it
  as its slug; otherwise it returns \<open>base-i\<close> for the smallest \<open>i \<ge> 2\<close> such that no
  stored row has the slug \<open>base-i\<close>. With the stored slugs "a" and "a-2", resolving "a"
  yields "a-3".
\<close>

theorem ensureUniqueSlug_smallest_free:
  "(\<not> repo_exist tb base \<longrightarrow> ensureUniqueSlug tb base = base) \<and>
   (repo_exist tb base \<longrightarrow>
      (\<exists>i. 2 \<le> i \<and> ensureUniqueSlug tb base = candidate base i \<and>
           \<not> repo_exist tb (candidate base i) \<and>
           (\<forall>j. 2 \<le> j \<and> j < i \<longrightarrow> repo_exist tb (candidate base j)))) \<and>
   (set (map row_slug tb) = {ascii ''a'', ascii ''a-2''} \<longrightarrow>
      ensureUniqueSlug tb (ascii ''a'') = ascii ''a-3'')"
proof (intro conjI impI)
  assume "\<not> repo_exist tb base"
  then show "ensureUniqueSlug tb base = base"
    by (simp add: ensureUniqueSlug_def)
next
  assume "repo_exist tb base"
  then have "ensureUniqueSlug tb base = candidate base (probe tb base 2)"
    by (simp add: ensureUniqueSlug_def)
  then show "\<exists>i. 2 \<le> i \<and> ensureUniqueSlug tb base = candidate base i \<and>
           \<not> repo_exist tb (candidate base i) \<and>
           (\<forall>j. 2 \<le> j \<and> j < i \<longrightarrow> repo_exist tb (candidate base j))"
    using probe_first_free [of 2 tb base] by blast
next
  assume slugs: "set (map row_slug tb) = {ascii ''a'', ascii ''a-2''}"
  have ex: "repo_exist tb s \<longleftrightarrow> s = ascii ''a'' \<or> s = ascii ''a-2''" for s
  proof -
    have "repo_exist tb s \<longleftrightarrow> s \<in> set (map row_slug tb)"
      by (auto simp: repo_exist_def list_ex_iff)
    then show ?thesis unfolding slugs by simp
  qed
  have c2: "candidate (ascii ''a'') 2 = ascii ''a-2''"
    and c3: "candidate (ascii ''a'') 3 = ascii ''a-3''"
    by (simp_all add: candidate_def ascii_def hyphen_def decimal_2 decimal_3)
  have n3: "\<not> repo_exist tb (candidate (ascii ''a'') 3)"
    unfolding ex c3 by (simp add: ascii_def)
  have y2: "repo_exist tb (candidate (ascii ''a'') 2)"
    unfolding ex c2 by simp
  have p3: "probe tb (ascii ''a'') 3 = 3"
    using n3 by (simp add: probe.simps [of tb "ascii ''a''" 3])
  have "probe tb (ascii ''a'') 2 = probe tb (ascii ''a'') (Suc 2)"
    using y2 by (simp add: probe.simps [of tb "ascii ''a''" 2])
  also have "Suc 2 = (3::nat)" by simp
  finally have "probe tb (ascii ''a'') 2 = 3" using p3 by simp
  then show "ensureUniqueSlug tb (ascii ''a'') = ascii ''a-3''"
    by (simp add: ensureUniqueSlug_def ex c3)
qed

theorem ensureUniqueSlug_smallest_free_witness:
  "repo_exist chain (ascii ''a'') \<and>
   set (map row_slug [mk_row 1 ''A'' ''a'' 1 None, mk_row 2 ''B'' ''a-2'' 2 None]) =
     {ascii ''a'', ascii ''a-2''} \<and>
   ensureUniqueSlug [mk_row 1 ''A'' ''a'' 1 None, mk_row 2 ''B'' ''a-2'' 2 None] (ascii ''a'') =
     ascii ''a-3'' \<and>
   \<not> repo_exist chain (ascii ''shop'') \<and>
   ensureUniqueSlug chain (ascii ''shop'') = ascii ''shop'' \<and>
   (\<exists>i. 2 \<le> i \<and> ensureUniqueSlug chain (ascii ''a'') = candidate (ascii ''a'') i)"
proof -
  let ?tb = "[mk_row 1 ''A'' ''a'' 1 None, mk_row 2 ''B'' ''a-2'' 2 None]"
  have s: "set (map row_slug ?tb) = {ascii ''a'', ascii ''a-2''}"
    by (simp add: mk_row_def)
  have e: "repo_exist chain (ascii ''a'')"
    by (simp add: repo_exist_def chain_def mk_row_def)
  have n: "\<not> repo_exist chain (ascii ''shop'')"
    by (simp add: repo_exist_def chain_def mk_row_def ascii_def)
  show ?thesis
    using ensureUniqueSlug_smallest_free [of ?tb "ascii ''a''"]
      ensureUniqueSlug_smallest_free [of chain "ascii ''a''"]
      ensureUniqueSlug_smallest_free [of chain "ascii ''shop''"] s e n
    by blast
qed

subsection \<open>The repository\<close>

lemma find_id: "find (\<lambda>r. row_id r = i) tb = Some r \<Longrightarrow> row_id r = i \<and> r \<in> set tb"
  by (induction tb) (auto split: if_splits)

lemma repo_findOne_Some:
  "repo_findOne tb i = Some m \<Longrightarrow> menu_id m = Some i \<and> list_ex (\<lambda>r. row_id r = i) tb"
  by (auto simp: repo_findOne_def load_def list_ex_iff dest: find_id)


lemma sql_max_Max: "sql_max xs = (if xs = [] then None else Some (Max (set xs)))"
  by (induction xs) (auto simp: max.commute)


lemma repo_save_insert:
  "save_error tb e = None \<Longrightarrow> menu_id e = None \<Longrightarrow>
     repo_save tb e =
       (tb @ [insert_row tb (as_stored e)], Inr (e\<lparr>menu_id := Some (next_id tb)\<rparr>))"
  by (simp add: repo_save_def)


lemma repo_save_failure: "repo_save tb e = (tb', Inl err) \<Longrightarrow> tb' = tb"
  by (auto simp: repo_save_def split: option.splits)

lemma save_or_conflict_eq:
  "save_or_conflict tb e =
     (case save_error tb e of
        None \<Rightarrow> repo_save tb e
      | Some code \<Rightarrow>
          (tb, Inl (if code = ''23505''
                    then BadRequestException ''Duplicate slug or order for this parent''
                    else QueryFailedError code)))"
  by (auto simp: save_or_conflict_def repo_save_def getPgErrorCode_def split: option.splits)

lemma save_or_conflict_failure: "save_or_conflict tb e = (tb', Inl err) \<Longrightarrow> tb' = tb"
  by (auto simp: save_or_conflict_eq repo_save_def split: option.splits)

lemma save_or_conflict_insert:
  "menu_id e = None \<Longrightarrow> save_or_conflict tb e = (tb', Inr m) \<Longrightarrow>
     tb' = tb @ [insert_row tb (as_stored e)] \<and> m = e\<lparr>menu_id := Some (next_id tb)\<rparr>"
  by (auto simp: save_or_conflict_eq repo_save_def split: option.splits)

subsection \<open>create\<close>

lemma create_success:
  assumes "create U uuid tb dto = (tb', Inr m)"
  shows "\<exists>parent. create_parent tb dto = Inr parent \<and>
           tb' = tb @ [insert_row tb (as_stored (create_entity dto (create_slug U uuid tb dto)
                                         (create_order tb dto parent) parent))] \<and>
           m = (create_entity dto (create_slug U uuid tb dto) (create_order tb dto parent) parent)
                 \<lparr>menu_id := Some (next_id tb)\<rparr>"
proof (cases "create_parent tb dto")
  case (Inl err)
  then show ?thesis using assms by (simp add: create_def)
next
  case (Inr parent)
  let ?e = "create_entity dto (create_slug U uuid tb dto) (create_order tb dto parent) parent"
  have "save_or_conflict tb ?e = (tb', Inr m)"
    using assms Inr by (simp add: create_def Let_def)
  moreover have "menu_id ?e = None" by (simp add: create_entity_def)
  ultimately show ?thesis using Inr save_or_conflict_insert by blast
qed

lemma create_failure:
  assumes "create U uuid tb dto = (tb', Inl err)"
  shows "tb' = tb"
proof (cases "create_parent tb dto")
  case (Inl e)
  then show ?thesis using assms by (simp add: create_def)
next
  case (Inr parent)
  then show ?thesis using assms save_or_conflict_failure
    by (fastforce simp: create_def Let_def)
qed

lemma create_parent_group:
  assumes "create_parent tb dto = Inr parent"
  shows "parent_group parent = (case parent of None \<Rightarrow> None | Some p \<Rightarrow> menu_id p)"
proof (cases parent)
  case None
  then show ?thesis by (simp add: parent_group_def)
next
  case (Some par)
  then obtain p where p: "c_parentId dto = Some p" "p \<noteq> 0" "repo_findOne tb p = Some par"
    using assms by (auto simp: create_parent_def split: option.splits if_splits)
  then have "menu_id par = Some p" using repo_findOne_Some by blast
  then show ?thesis using Some p by (simp add: parent_group_def)
qed

lemma max_order_Max:
  "max_order tb p =
     (if siblings tb p = [] then 0 else Max (row_order ` set (siblings tb p)))"
  by (simp add: max_order_def sql_max_Max)

lemma created_isActive:
  assumes "tb' = tb @ [insert_row tb (as_stored (create_entity dto slug n parent))]"
    and "m = (create_entity dto slug n parent)\<lparr>menu_id := Some (next_id tb)\<rparr>"
  shows "menu_isActive m = (case c_isActive dto of None \<Rightarrow> True | Some b \<Rightarrow> b) \<and>
         (\<exists>r. tb' = tb @ [r] \<and> menu_id m = Some (row_id r) \<and>
              row_isActive r = menu_isActive m)"
  unfolding assms by (simp add: create_entity_def insert_row_def as_stored_def)

lemma created_order:
  assumes "c_order dto = None" and "create_parent tb dto = Inr parent"
    and "tb' = tb @ [insert_row tb (as_stored (create_entity dto slug (create_order tb dto parent) parent))]"
    and "m = (create_entity dto slug (create_order tb dto parent) parent)
               \<lparr>menu_id := Some (next_id tb)\<rparr>"
  shows "\<exists>p r. menu_parent m = Some p \<and> tb' = tb @ [r] \<and> row_parentId r = p \<and>
           row_order r = menu_order m \<and>
           menu_order m =
             (if siblings tb p = [] then 1 else Max (row_order ` set (siblings tb p)) + 1)"
proof -
  let ?p = "case parent of None \<Rightarrow> None | Some q \<Rightarrow> menu_id q"
  let ?e = "create_entity dto slug (create_order tb dto parent) parent"
  have grp: "parent_group parent = ?p"
    by (rule create_parent_group [OF assms(2)])
  have ord: "create_order tb dto parent =
      (if siblings tb ?p = [] then 1 else Max (row_order ` set (siblings tb ?p)) + 1)"
    using assms(1) by (simp add: create_order_def grp max_order_Max)
  have "menu_parent m = Some ?p" "row_parentId (insert_row tb (as_stored ?e)) = ?p"
    "row_order (insert_row tb (as_stored ?e)) = menu_order m"
    "menu_order m = create_order tb dto parent"
    unfolding assms(4) by (simp_all add: create_entity_def insert_row_def as_stored_def)
  then show ?thesis using assms(3) ord by metis
qed


lemma create_shop:
  "create unicode_fragment [] chain shop_request =
     (chain @ [mk_row 5 ''Shop'' ''Shop'' 6 None],
      Inr \<lparr>menu_id = Some 5, menu_name = ascii ''Shop'', menu_slug = ascii ''Shop'',
            menu_order = 6, menu_isActive = True, menu_parent = Some None,
            menu_children = None\<rparr>)"
  by (simp add: service_eval slug_eval shop_request_def)


lemma create_orphan:
  "create unicode_fragment [] chain orphan_request =
     (chain, Inl (NotFoundException ''Parent not found''))"
  by (simp add: service_eval slug_eval orphan_request_def)




text \<open>The root group of the example table has the orders 1 and 5; the next order is 6.\<close>

lemma root_group_orders:
  "map row_order (siblings chain None) = [1, 5] \<and> max_order chain None + 1 = 6"
  by (simp add: siblings_def max_order_def chain_def mk_row_def)

subsection \<open>update\<close>









text \<open>The update up to the guard of step 3: the object that reaches \<open>update_parent\<close>.\<close>

lemma update_unfold:
  assumes "repo_findOne tb i = Some menu"
  shows "update U uuid tb i dto =
           (case update_parent tb i dto
                   (update_slug U uuid tb dto (snd (update_name dto menu))
                      (fst (update_name dto menu))) of
              Inl err \<Rightarrow> (tb, Inl err)
            | Inr m3 \<Rightarrow> save_or_conflict tb (update_flags dto m3))"
  using assms by (simp add: update_def Let_def case_prod_beta)




lemma update_failure:
  assumes "update U uuid tb i dto = (tb', Inl err)"
  shows "tb' = tb"
proof (cases "repo_findOne tb i")
  case None
  then show ?thesis using assms by (simp add: update_def)
next
  case (Some menu)
  obtain m2 where u:
    "update U uuid tb i dto =
       (case update_parent tb i dto m2 of
          Inl err \<Rightarrow> (tb, Inl err)
        | Inr m3 \<Rightarrow> save_or_conflict tb (update_flags dto m3))"
    using update_unfold [OF Some] by blast
  show ?thesis
  proof (cases "update_parent tb i dto m2")
    case (Inl e)
    then have "update U uuid tb i dto = (tb, Inl e)" by (simp add: u)
    then show ?thesis using assms by simp
  next
    case (Inr m3)
    then have "save_or_conflict tb (update_flags dto m3) = (tb', Inl err)"
      using assms by (simp add: u)
    then show ?thesis using save_or_conflict_failure by blast
  qed
qed





lemma move_3_under_1:
  "update unicode_fragment [] chain 3 (patch None (Some (Some 1))) =
     ([mk_row 1 ''A'' ''a'' 1 None, mk_row 2 ''B'' ''b'' 1 (Some 1),
       mk_row 3 ''C'' ''c'' 1 (Some 1), mk_row 4 ''D'' ''a-2'' 5 None],
      Inr ((load (mk_row 3 ''C'' ''c'' 1 (Some 2)))\<lparr>menu_parent := Some (Some 1)\<rparr>))"
  by (simp add: update_eval service_eval ascii_def)

lemma update_name_assigns:
  "u_name dto = Some n \<Longrightarrow> menu_name (fst (update_name dto m)) = trim n"
  by (simp add: update_name_def Let_def)

text \<open>
  C8 fails on the code: step 1 of \<open>update\<close> computes the flag \<open>nameChanged\<close> with the
  test on the empty string, but assigns the trimmed name without any test. A name of
  three spaces passes the validation of a non-empty string, trims to the empty string, and
  the empty string is stored as the name of node 1, whose name was "A". (The second copy
  of the service tests \<open>if (dto.name)\<close>, which three spaces pass as well:
  \<open>update_v2_blank_name_stored\<close>.)
\<close>

theorem update_blank_name_stored:
  "trim (ascii ''   '') = [] \<and>
   update unicode_fragment [] chain 1 (patch (Some (ascii ''   '')) None) =
     ([(mk_row 1 ''A'' ''a'' 1 None)\<lparr>row_name := []\<rparr>, mk_row 2 ''B'' ''b'' 1 (Some 1),
       mk_row 3 ''C'' ''c'' 1 (Some 2), mk_row 4 ''D'' ''a-2'' 5 None],
      Inr ((load (mk_row 1 ''A'' ''a'' 1 None))\<lparr>menu_name := []\<rparr>))"
  by (simp add: update_eval service_eval slug_eval)

subsection \<open>remove\<close>

lemma remove_cases:
  "remove tb i =
     (case find (\<lambda>r. row_id r = i) tb of
        None \<Rightarrow> (tb, Inl (NotFoundException ''Menu not found''))
      | Some r \<Rightarrow>
          if list_ex (\<lambda>c. row_parentId c = Some i) tb
          then (tb, Inl (QueryFailedError ''23503''))
          else (filter (\<lambda>r. row_id r \<noteq> i) tb, Inr ()))"
  by (auto simp: remove_def findOne_def repo_findOne_def load_def has_children_def
      repo_remove_def split: option.splits dest: find_id)

lemma remove_never_conflict: "snd (remove tb i) \<noteq> Inl (BadRequestException msg)"
  by (simp add: remove_cases split: option.splits)

lemma remove_failure: "remove tb i = (tb', Inl err) \<Longrightarrow> tb' = tb"
  by (auto simp: remove_cases split: option.splits if_splits)

text \<open>
  C1 fails on the code for a node with a child. \<open>remove\<close> loads the node with
  \<open>findOne\<close>, which names no relations, so \<open>menu.children\<close> is \<open>undefined\<close> and the guard
  \<open>if (menu.children?.length)\<close> never throws its \<open>BadRequestException\<close>. The node is
  handed to \<open>repo.remove\<close>; the foreign key of the parent relation refuses the deletion,
  and the caller receives the database's error instead of the conflict error. Node 1 of
  the example table has the child 2. Both copies of the service have the same \<open>remove\<close>.
\<close>

theorem remove_node_with_child:
  "list_ex (\<lambda>c. row_parentId c = Some 1) chain \<and>
   menu_children (load (mk_row 1 ''A'' ''a'' 1 None)) = None \<and>
   remove chain 1 = (chain, Inl (QueryFailedError ''23503''))"
  by (simp add: remove_cases load_def chain_def mk_row_def)

text \<open>The childless node 3 is deleted, and a missing node is reported.\<close>

lemma remove_examples:
  "remove chain 3 =
     ([mk_row 1 ''A'' ''a'' 1 None, mk_row 2 ''B'' ''b'' 1 (Some 1),
       mk_row 4 ''D'' ''a-2'' 5 None], Inr ())"
  "remove chain 9 = (chain, Inl (NotFoundException ''Menu not found''))"
  by (simp_all add: remove_cases chain_def mk_row_def)

subsection \<open>findTreeById\<close>

lemma findTreeById_root_only:
  assumes "findTreeById tb i = Inr t"
  shows "row_id (tree_root t) = i \<and> row_parentId (tree_root t) = None"
proof -
  have f: "find (\<lambda>t. row_id (tree_root t) = i) (repo_findTrees tb) = Some t"
    using assms by (simp add: findTreeById_def Let_def split: option.splits)
  then have "row_id (tree_root t) = i" "t \<in> set (repo_findTrees tb)"
    by (auto simp: find_Some_iff)
  moreover have "tree_root (subtree tb n r) = r" for n r
    by (cases n) simp_all
  ultimately show ?thesis by (auto simp: repo_findTrees_def)
qed

text \<open>
  C7 fails on the code for every node that is not a root: \<open>findTreeById\<close> searches the
  list of root trees only, \<open>trees.find((t) => t.id === id)\<close>, and never descends into
  \<open>children\<close>. Node 2 of the example table exists, \<open>findOne\<close> returns it, and it is a
  child in the tree of root 1; the subtree query for it fails with NotFound. Both copies
  of the service have the same \<open>findTreeById\<close>.
\<close>

theorem findTreeById_child_not_found:
  "findOne chain 2 = Inr (load (mk_row 2 ''B'' ''b'' 1 (Some 1))) \<and>
   findTreeById chain 1 =
     Inr (MenuTree (mk_row 1 ''A'' ''a'' 1 None)
            [MenuTree (mk_row 2 ''B'' ''b'' 1 (Some 1))
               [MenuTree (mk_row 3 ''C'' ''c'' 1 (Some 2)) []]]) \<and>
   findTreeById chain 2 = Inl (NotFoundException ''Menu not found'')"
  by (simp add: findOne_def repo_findOne_def findTreeById_def repo_findTrees_def chain_def
      mk_row_def)

subsection \<open>Failure leaves the table unchanged\<close>

text \<open>
  C5. Every mutating operation is all-or-nothing on the stored table: when \<open>create\<close>,
  \<open>update\<close> or \<open>remove\<close> fails, at whichever step, the table is the one before the
  operation; a successful \<open>create\<close> adds exactly one row. The only write of each
  operation is its last step, one \<open>save\<close> or \<open>remove\<close> of the repository. (For the
  second copy of the service, whose \<open>create\<close> runs in \<open>dataSource.transaction\<close>:
  \<open>create_v2_failure\<close> and \<open>update_v2_failure\<close>.)
\<close>

theorem mutations_all_or_nothing:
  "(snd (create U uuid tb cdto) = Inl e1 \<longrightarrow> fst (create U uuid tb cdto) = tb) \<and>
   (snd (update U uuid tb i udto) = Inl e2 \<longrightarrow> fst (update U uuid tb i udto) = tb) \<and>
   (snd (remove tb i) = Inl e3 \<longrightarrow> fst (remove tb i) = tb) \<and>
   (snd (create U uuid tb cdto) = Inr m \<longrightarrow> (\<exists>r. fst (create U uuid tb cdto) = tb @ [r]))"
proof (intro conjI impI)
  assume "snd (create U uuid tb cdto) = Inl e1"
  then have "create U uuid tb cdto = (fst (create U uuid tb cdto), Inl e1)"
    by (metis prod.collapse)
  then show "fst (create U uuid tb cdto) = tb" by (rule create_failure)
next
  assume "snd (update U uuid tb i udto) = Inl e2"
  then have "update U uuid tb i udto = (fst (update U uuid tb i udto), Inl e2)"
    by (metis prod.collapse)
  then show "fst (update U uuid tb i udto) = tb" by (rule update_failure)
next
  assume "snd (remove tb i) = Inl e3"
  then have "remove tb i = (fst (remove tb i), Inl e3)"
    by (metis prod.collapse)
  then show "fst (remove tb i) = tb" by (rule remove_failure)
next
  assume "snd (create U uuid tb cdto) = Inr m"
  then have "create U uuid tb cdto = (fst (create U uuid tb cdto), Inr m)"
    by (metis prod.collapse)
  then show "\<exists>r. fst (create U uuid tb cdto) = tb @ [r]"
    using create_success by blast
qed

theorem mutations_all_or_nothing_witness:
  "snd (create unicode_fragment [] chain orphan_request) =
     Inl (NotFoundException ''Parent not found'') \<and>
   fst (create unicode_fragment [] chain orphan_request) = chain \<and>
   snd (update unicode_fragment [] chain 3 (patch (Some (ascii ''D'')) (Some (Some 1)))) =
     Inl (BadRequestException ''Duplicate slug or order for this parent'') \<and>
   fst (update unicode_fragment [] chain 3 (patch (Some (ascii ''D'')) (Some (Some 1)))) = chain \<and>
   snd (remove chain 1) = Inl (QueryFailedError ''23503'') \<and>
   fst (remove chain 1) = chain \<and>
   (\<exists>r. fst (create unicode_fragment [] chain shop_request) = chain @ [r])"
proof -
  have c: "snd (create unicode_fragment [] chain orphan_request) =
     Inl (NotFoundException ''Parent not found'')"
    by (simp add: create_orphan)
  have u: "snd (update unicode_fragment [] chain 3 (patch (Some (ascii ''D'')) (Some (Some 1)))) =
     Inl (BadRequestException ''Duplicate slug or order for this parent'')"
    by (simp add: update_eval service_eval slug_eval)
  have r: "snd (remove chain 1) = Inl (QueryFailedError ''23503'')"
    by (simp add: remove_cases chain_def mk_row_def)
  have s: "snd (create unicode_fragment [] chain shop_request) =
     Inr \<lparr>menu_id = Some 5, menu_name = ascii ''Shop'', menu_slug = ascii ''Shop'',
          menu_order = 6, menu_isActive = True, menu_parent = Some None,
          menu_children = None\<rparr>"
    by (simp add: create_shop)
  show ?thesis
    using mutations_all_or_nothing [of unicode_fragment "[]" chain orphan_request
        "NotFoundException ''Parent not found''" 3
        "patch (Some (ascii ''D'')) (Some (Some 1))"
        "BadRequestException ''Duplicate slug or order for this parent''"
        "QueryFailedError ''23503''"]
      mutations_all_or_nothing [of unicode_fragment "[]" chain shop_request _ 1 _ _ _
        "\<lparr>menu_id = Some 5, menu_name = ascii ''Shop'', menu_slug = ascii ''Shop'',
          menu_order = 6, menu_isActive = True, menu_parent = Some None,
          menu_children = None\<rparr>"]
      c u r s
    by blast
qed

section \<open>Properties of the second copy of the service\<close>

lemma transaction_failure: "transaction tb body = (tb', Inl err) \<Longrightarrow> tb' = tb"
  by (auto simp: transaction_def split: prod.splits sum.splits)

lemma transaction_success: "transaction tb body = (tb', Inr v) \<Longrightarrow> body tb = (tb', Inr v)"
  by (auto simp: transaction_def split: prod.splits sum.splits)

lemma create_v2_success:
  assumes "create_v2 U tb dto = (tb', Inr m)"
  shows "\<exists>parent. create_parent tb dto = Inr parent \<and>
           tb' = tb @ [insert_row tb (as_stored (create_entity dto (create_v2_slug U dto)
                                         (create_order tb dto parent) parent))] \<and>
           m = (create_entity dto (create_v2_slug U dto) (create_order tb dto parent) parent)
                 \<lparr>menu_id := Some (next_id tb)\<rparr>"
proof -
  have free: "repo_findOne_slug tb (create_v2_slug U dto) = None"
    using assms by (auto simp: create_v2_def Let_def split: option.splits)
  show ?thesis
  proof (cases "create_parent tb dto")
    case (Inl err)
    then show ?thesis using assms free by (simp add: create_v2_def)
  next
    case (Inr parent)
    let ?e = "create_entity dto (create_v2_slug U dto) (create_order tb dto parent) parent"
    have "transaction tb (\<lambda>em. save_or_conflict em
            (create_entity dto (create_v2_slug U dto) (create_order em dto parent) parent)) =
          (tb', Inr m)"
      using assms free Inr by (simp add: create_v2_def Let_def)
    then have "save_or_conflict tb ?e = (tb', Inr m)"
      by (rule transaction_success)
    moreover have "menu_id ?e = None" by (simp add: create_entity_def)
    ultimately show ?thesis using Inr save_or_conflict_insert by blast
  qed
qed

lemma create_v2_failure:
  assumes "create_v2 U tb dto = (tb', Inl err)"
  shows "tb' = tb"
proof (cases "repo_findOne_slug tb (create_v2_slug U dto)")
  case (Some found)
  then show ?thesis using assms by (simp add: create_v2_def)
next
  case None
  show ?thesis
  proof (cases "create_parent tb dto")
    case (Inl e)
    then show ?thesis using assms None by (simp add: create_v2_def)
  next
    case (Inr parent)
    then have "transaction tb (\<lambda>em. save_or_conflict em
            (create_entity dto (create_v2_slug U dto) (create_order em dto parent) parent)) =
          (tb', Inl err)"
      using assms None by (simp add: create_v2_def Let_def)
    then show ?thesis by (rule transaction_failure)
  qed
qed

lemma create_v2_isActive_default:
  assumes "create_v2 U tb dto = (tb', Inr m)"
  shows "menu_isActive m = (case c_isActive dto of None \<Rightarrow> True | Some b \<Rightarrow> b) \<and>
         (\<exists>r. tb' = tb @ [r] \<and> menu_id m = Some (row_id r) \<and>
              row_isActive r = menu_isActive m)"
proof -
  obtain parent where
    "tb' = tb @ [insert_row tb (as_stored (create_entity dto (create_v2_slug U dto)
                                         (create_order tb dto parent) parent))]"
    and "m = (create_entity dto (create_v2_slug U dto)
                   (create_order tb dto parent) parent)\<lparr>menu_id := Some (next_id tb)\<rparr>"
    using create_v2_success [OF assms] by blast
  then show ?thesis by (rule created_isActive)
qed

lemma create_v2_order_next:
  assumes "c_order dto = None" and "create_v2 U tb dto = (tb', Inr m)"
  shows "\<exists>p r. menu_parent m = Some p \<and> tb' = tb @ [r] \<and> row_parentId r = p \<and>
           row_order r = menu_order m \<and>
           menu_order m =
             (if siblings tb p = [] then 1 else Max (row_order ` set (siblings tb p)) + 1)"
proof -
  obtain parent where
    "create_parent tb dto = Inr parent"
    and "tb' = tb @ [insert_row tb (as_stored (create_entity dto (create_v2_slug U dto)
                                         (create_order tb dto parent) parent))]"
    and "m = (create_entity dto (create_v2_slug U dto)
                   (create_order tb dto parent) parent)\<lparr>menu_id := Some (next_id tb)\<rparr>"
    using create_v2_success [OF assms(2)] by blast
  then show ?thesis by (rule created_order [OF assms(1)])
qed

lemma create_v2_examples:
  "create_v2 unicode_fragment chain shop_request =
     (chain @ [mk_row 5 ''Shop'' ''shop'' 6 None],
      Inr \<lparr>menu_id = Some 5, menu_name = ascii ''Shop'', menu_slug = ascii ''shop'',
            menu_order = 6, menu_isActive = True, menu_parent = Some None,
            menu_children = None\<rparr>)"
  "create_v2 unicode_fragment chain quiet_request =
     (chain @ [(mk_row 5 ''News'' ''news'' 2 (Some 2))\<lparr>row_isActive := False\<rparr>],
      Inr \<lparr>menu_id = Some 5, menu_name = ascii ''News'', menu_slug = ascii ''news'',
            menu_order = 2, menu_isActive = False, menu_parent = Some (Some 2),
            menu_children = None\<rparr>)"
  "create_v2 unicode_fragment chain hidden_request =
     (chain, Inl (BadRequestException ''Slug already exists''))"
  by (simp_all add: service_v2_eval service_eval slug_eval shop_request_def quiet_request_def
      hidden_request_def)


lemma update_v2_failure:
  assumes "update_v2 U tb i dto = (tb', Inl err)"
  shows "tb' = tb"
proof (cases "findOne tb i")
  case (Inl e)
  then show ?thesis using assms by (simp add: update_v2_def)
next
  case (Inr menu)
  show ?thesis
  proof (cases "update_v2_slug tb i dto (update_v2_name U dto menu)")
    case (Inl e)
    then show ?thesis using assms \<open>findOne tb i = Inr menu\<close> by (simp add: update_v2_def)
  next
    case m2: (Inr m2)
    show ?thesis
    proof (cases "update_parent tb i dto (update_v2_flags dto m2)")
      case (Inl e)
      then show ?thesis using assms \<open>findOne tb i = Inr menu\<close> m2
        by (simp add: update_v2_def)
    next
      case (Inr m3)
      show ?thesis
      proof (cases "update_v2_nulled dto")
        case True
        then show ?thesis using assms \<open>findOne tb i = Inr menu\<close> m2 Inr
          by (simp add: update_v2_def)
      next
        case False
        then have "repo_save tb m3 = (tb', Inl err)"
          using assms \<open>findOne tb i = Inr menu\<close> m2 Inr by (simp add: update_v2_def)
        then show ?thesis by (rule repo_save_failure)
      qed
    qed
  qed
qed



text \<open>
  A request that names a missing parent and the slug of another node fails in the second
  copy with the conflict error of the slug, not with NotFound.
\<close>

lemma update_v2_slug_before_parent:
  "update_v2 unicode_fragment chain 3 (patch_slug (ascii ''a'') (Some (Some 9))) =
     (chain, Inl (BadRequestException ''Slug already exists''))"
  by (simp add: service_v2_eval update_eval service_eval slug_eval)

text \<open>The second copy stores the blank name as well, and an empty slug with it.\<close>

lemma update_v2_blank_name_stored:
  "update_v2 unicode_fragment chain 1 (patch (Some (ascii ''   '')) None) =
     ([(mk_row 1 ''A'' ''a'' 1 None)\<lparr>row_name := [], row_slug := []\<rparr>,
       mk_row 2 ''B'' ''b'' 1 (Some 1), mk_row 3 ''C'' ''c'' 1 (Some 2),
       mk_row 4 ''D'' ''a-2'' 5 None],
      Inr ((load (mk_row 1 ''A'' ''a'' 1 None))\<lparr>menu_name := [], menu_slug := []\<rparr>))"
  by (simp add: service_v2_eval update_eval service_eval slug_eval)

section \<open>The guard of the parent in both copies\<close>





end
